theory Spec2Isabelle
  imports Complex_Main "HOL-Library.Sublist" "HOL-Library.Log_Nat"
begin

section \<open>Data model\<close>

subsection \<open>Browser files and JavaScript values\<close>

text \<open>
  A browser \<open>File\<close> object, with the three properties the components read:
  \<open>file.name\<close>, \<open>file.size\<close> (a byte count) and \<open>file.type\<close> (the media type).
\<close>

record File =
  name :: string
  size_bytes :: nat
  type :: string

text \<open>
  The values that reach \<open>handleSubmit\<close> at run time. The TypeScript annotations
  (\<open>response.data as {message: string; ...}\<close>) are erased, so a response body is whatever
  axios parsed: any JSON value, or a string when the body is not JSON. Numbers are kept as
  integers; the code only ever tests a number for being zero. An object is an association list
  in which the first binding of a key is the one a property read sees.
\<close>

datatype jsval =
    JUndefined
  | JNull
  | JBool bool
  | JNum int
  | JStr string
  | JArr "jsval list"
  | JObj "(string \<times> jsval) list"

text \<open>JavaScript truthiness, as used by \<open>a || b\<close>.\<close>

fun truthy :: "jsval \<Rightarrow> bool" where
  "truthy JUndefined = False"
| "truthy JNull = False"
| "truthy (JBool b) = b"
| "truthy (JNum n) = (n \<noteq> 0)"
| "truthy (JStr s) = (s \<noteq> [])"
| "truthy (JArr xs) = True"
| "truthy (JObj kvs) = True"

text \<open>
  A property read \<open>v.k\<close> for the keys the code reads (\<open>message\<close>, \<open>outputFile\<close>,
  \<open>sessionId\<close>, \<open>error\<close>): it throws a \<open>TypeError\<close> on \<open>null\<close> and
  \<open>undefined\<close>, yields the bound value on an object that has the key, and \<open>undefined\<close>
  everywhere else (primitives and arrays have none of these keys).
\<close>

datatype thrown_by_read = TypeError

fun getProp :: "jsval \<Rightarrow> string \<Rightarrow> thrown_by_read + jsval" where
  "getProp JUndefined k = Inl TypeError"
| "getProp JNull k = Inl TypeError"
| "getProp (JObj kvs) k = Inr (case map_of kvs k of None \<Rightarrow> JUndefined | Some v \<Rightarrow> v)"
| "getProp v k = Inr JUndefined"

text \<open>The optional read \<open>v?.k\<close>: \<open>undefined\<close> instead of the \<open>TypeError\<close>.\<close>

definition getPropOpt :: "jsval \<Rightarrow> string \<Rightarrow> jsval" where
  "getPropOpt v k = (case getProp v k of Inl e \<Rightarrow> JUndefined | Inr x \<Rightarrow> x)"

text \<open>\<open>String.prototype.endsWith\<close> with one argument.\<close>

definition endsWith :: "string \<Rightarrow> string \<Rightarrow> bool" where
  "endsWith s searchString =
     (length searchString \<le> length s \<and>
      drop (length s - length searchString) s = searchString)"

text \<open>
  \<open>Array.prototype.filter\<close> with a callback that also receives the index:
  \<open>xs.filter((x, i) => p(x, i))\<close>. The first argument is the index of the head.
\<close>

fun filter_from :: "nat \<Rightarrow> ('a \<Rightarrow> nat \<Rightarrow> bool) \<Rightarrow> 'a list \<Rightarrow> 'a list" where
  "filter_from i p [] = []"
| "filter_from i p (x # xs) =
     (if p x i then x # filter_from (Suc i) p xs else filter_from (Suc i) p xs)"

definition filter_indexed :: "('a \<Rightarrow> nat \<Rightarrow> bool) \<Rightarrow> 'a list \<Rightarrow> 'a list" where
  "filter_indexed p xs = filter_from 0 p xs"

subsection \<open>Component state\<close>

text \<open>
  The object handed to \<open>onProcessingComplete\<close>. A key that the object literal does not
  have reads as \<open>undefined\<close>, so an absent field is \<open>JUndefined\<close>.
\<close>

record results =
  success :: bool
  message :: jsval
  outputFile :: jsval
  sessionId :: jsval
  error :: jsval

text \<open>
  The \<open>useState\<close> cells of the two stateful components. \<open>pdfFiles\<close>, \<open>excelFile\<close>,
  \<open>uploadProgress\<close> and the error banner (\<open>error\<close> in the source, \<open>error_state\<close> here,
  since the result object has a field of that name too) belong to one mounted instance of
  \<open>FileUpload\<close>; \<open>isProcessing\<close> and \<open>processingResults\<close> belong to \<open>App\<close>, which
  \<open>FileUpload\<close> reaches through the callbacks \<open>onProcessingStart\<close> and
  \<open>onProcessingComplete\<close>. The handlers below are functions on these cells; when
  \<open>FileUpload\<close> is mounted and unmounted, and what a failing render does, is the subject
  of the record \<open>app\<close> further down.
\<close>

record state =
  pdfFiles :: "File list"
  excelFile :: "File option"
  uploadProgress :: int
  error_state :: jsval
  isProcessing :: bool
  processingResults :: "results option"

definition initial :: state where
  "initial = \<lparr>pdfFiles = [], excelFile = None, uploadProgress = 0, error_state = JNull,
              isProcessing = False, processingResults = None\<rparr>"

text \<open>
  The condition under which \<open>App\<close> renders \<open>FileUpload\<close>,
  \<open>!processingResults?.success\<close>, and the attribute of the submit button,
  \<open>disabled={pdfFiles.length === 0 || !excelFile}\<close>.
\<close>

definition fileUploadRendered :: "state \<Rightarrow> bool" where
  "fileUploadRendered st =
     (\<not> (case processingResults st of None \<Rightarrow> False | Some r \<Rightarrow> success r))"

definition submitDisabled :: "state \<Rightarrow> bool" where
  "submitDisabled st = (length (pdfFiles st) = 0 \<or> excelFile st = None)"

section \<open>The file selection handlers\<close>

definition onDropPdf :: "File list \<Rightarrow> state \<Rightarrow> state" where
  "onDropPdf acceptedFiles st =
     (let validFiles = filter (\<lambda>file. type file = ''application/pdf'') acceptedFiles
      in if length validFiles > 0
         then st\<lparr>pdfFiles := pdfFiles st @ validFiles, error_state := JNull\<rparr>
         else st\<lparr>error_state := JStr ''Please upload valid PDF files''\<rparr>)"

text \<open>\<open>acceptedFiles[0]\<close> of an empty array is \<open>undefined\<close>, which is falsy.\<close>

definition onDropExcel :: "File list \<Rightarrow> state \<Rightarrow> state" where
  "onDropExcel acceptedFiles st =
     (case acceptedFiles of
        [] \<Rightarrow> st\<lparr>error_state := JStr ''Please upload a valid Excel file (.xlsx)''\<rparr>
      | file # rest \<Rightarrow>
          if endsWith (name file) ''.xlsx''
          then st\<lparr>excelFile := Some file, error_state := JNull\<rparr>
          else st\<lparr>error_state := JStr ''Please upload a valid Excel file (.xlsx)''\<rparr>)"

text \<open>The index is a JavaScript number; negative values are not excluded by the code.\<close>

definition removePdfFile :: "int \<Rightarrow> state \<Rightarrow> state" where
  "removePdfFile index st =
     st\<lparr>pdfFiles := filter_indexed (\<lambda>_ i. int i \<noteq> index) (pdfFiles st)\<rparr>"

section \<open>Submission\<close>

subsection \<open>Upload progress\<close>

text \<open>
  An axios progress event: \<open>loaded\<close> is a byte count, \<open>total\<close> is absent when the
  length of the transfer is not computable.
\<close>

record AxiosProgressEvent =
  loaded :: nat
  total :: "nat option"

text \<open>
  JavaScript numbers are IEEE 754 doubles, and every arithmetic operation yields the double
  nearest to the exact result, a tie going to the even significand. \<open>double_of x\<close> is that
  double for a rational \<open>x\<close>: with \<open>binade x\<close> the exponent \<open>e\<close> such that
  \<open>2^e \<le> |x| < 2^(e+1)\<close>, the doubles around \<open>x\<close> are the multiples of
  \<open>2^(e-52)\<close>. The exponent is not bounded here: overflow and subnormal numbers are out
  of reach of quotients of byte counts.
\<close>

definition roundTiesToEven :: "rat \<Rightarrow> int" where
  "roundTiesToEven y =
     (let f = \<lfloor>y\<rfloor>; d = y - of_int f
      in if d < 1 / 2 then f else if 1 / 2 < d then f + 1 else if even f then f else f + 1)"

definition binade :: "rat \<Rightarrow> int" where
  "binade x =
     (if 1 \<le> x then int (floorlog 2 (nat \<lfloor>x\<rfloor>)) - 1
      else - int (floorlog 2 (nat (\<lceil>1 / x\<rceil> - 1))))"

definition double_of :: "rat \<Rightarrow> rat" where
  "double_of x =
     (if x = 0 then 0
      else let u = 2 powi (binade \<bar>x\<bar> - 52)
           in sgn x * (of_int (roundTiesToEven (\<bar>x\<bar> / u)) * u))"

text \<open>
  \<open>Math.round((loaded ? loaded * 100 : 0) / (total || 100))\<close>. The fields of the event
  are doubles holding byte counts; a byte count below \<open>2^53\<close> is held exactly. The
  product and the quotient are each rounded to a double. \<open>Math.round\<close> is exact on a
  double and rounds a half towards plus infinity, which is \<^const>\<open>round\<close>.
\<close>

definition percentCompleted :: "AxiosProgressEvent \<Rightarrow> int" where
  "percentCompleted progressEvent =
     round (double_of
       ((if loaded progressEvent \<noteq> 0
         then double_of (rat_of_nat (loaded progressEvent) * 100) else 0)
        / (case total progressEvent of
             None \<Rightarrow> 100
           | Some t \<Rightarrow> if t \<noteq> 0 then rat_of_nat t else 100)))"

definition onUploadProgress :: "AxiosProgressEvent \<Rightarrow> state \<Rightarrow> state" where
  "onUploadProgress progressEvent st = st\<lparr>uploadProgress := percentCompleted progressEvent\<rparr>"

text \<open>
  The progress rule in the words of the specification: the rounded percentage clamped to
  \<open>[0, 100]\<close>, and \<open>0\<close> when the total is unknown or zero.
\<close>

definition spec_percentComplete :: "AxiosProgressEvent \<Rightarrow> int" where
  "spec_percentComplete ev =
     (case total ev of
        None \<Rightarrow> 0
      | Some t \<Rightarrow>
          if t = 0 then 0
          else max 0 (min 100 (round (rat_of_nat (loaded ev) * 100 / rat_of_nat t))))"

subsection \<open>The request and how it settles\<close>

record response =
  status :: nat
  data :: jsval

text \<open>
  What the promise of \<open>axios.post\<close> settles to: fulfilled with a response, rejected with
  an \<open>AxiosError\<close> (which carries the response when the server sent one), or rejected
  with anything else.
\<close>

datatype settled =
    Fulfilled response
  | RejectedAxios "response option"
  | RejectedOther

text \<open>What happens on the wire.\<close>

datatype transfer = NetworkFailure | HttpResponse nat jsval

text \<open>
  Modelled from the spec: the axios library is a dependency and not part of the sources. The
  specification's HTTP contract makes a \<open>2xx\<close> status a response and everything else a
  failure; axios fulfils the promise in the first case and rejects with an \<open>AxiosError\<close>
  holding the response in the second, and rejects with an \<open>AxiosError\<close> without response
  when no response arrives.
\<close>

definition axios_post :: "transfer \<Rightarrow> settled" where
  "axios_post t =
     (case t of
        NetworkFailure \<Rightarrow> RejectedAxios None
      | HttpResponse code body \<Rightarrow>
          if 200 \<le> code \<and> code < 300
          then Fulfilled \<lparr>status = code, data = body\<rparr>
          else RejectedAxios (Some \<lparr>status = code, data = body\<rparr>))"

subsection \<open>handleSubmit\<close>

text \<open>
  \<open>handleSubmit\<close> is an async function with one \<open>await\<close>. Its first half runs when the
  form is submitted and either stops at the validation guard or builds the multipart body and
  issues the request; the second half runs when the request settles. The body is the list of
  \<open>formData.append\<close> calls in order.
\<close>

type_synonym formData = "(string \<times> File) list"

definition handleSubmit_start :: "state \<Rightarrow> state \<times> formData option" where
  "handleSubmit_start st =
     (if length (pdfFiles st) = 0 \<or> excelFile st = None
      then (st\<lparr>error_state := JStr ''Please upload both PDF files and an Excel file''\<rparr>, None)
      else (st\<lparr>error_state := JNull, isProcessing := True\<rparr>,
            Some (map (\<lambda>file. (''pdfFiles'', file)) (pdfFiles st) @
                  [(''excelFile'', the (excelFile st))])))"

text \<open>\<open>handleProcessingComplete\<close> of \<open>App\<close>.\<close>

definition onProcessingComplete :: "results \<Rightarrow> state \<Rightarrow> state" where
  "onProcessingComplete r st = st\<lparr>processingResults := Some r, isProcessing := False\<rparr>"

text \<open>
  The \<open>try\<close> block after the \<open>await\<close>: a rejection is rethrown at the \<open>await\<close>; on a
  fulfilled promise the three reads of \<open>data\<close> throw together or not at all.
\<close>

datatype caught = AxiosError "response option" | OtherError

definition try_block :: "settled \<Rightarrow> caught + results" where
  "try_block s =
     (case s of
        RejectedAxios resp \<Rightarrow> Inl (AxiosError resp)
      | RejectedOther \<Rightarrow> Inl OtherError
      | Fulfilled resp \<Rightarrow>
          (case getProp (data resp) ''message'' of
             Inl e \<Rightarrow> Inl OtherError
           | Inr m \<Rightarrow>
               Inr \<lparr>success = True, message = m,
                    outputFile = getPropOpt (data resp) ''outputFile'',
                    sessionId = getPropOpt (data resp) ''sessionId'',
                    error = JUndefined\<rparr>))"

text \<open>
  The \<open>catch\<close> block: \<open>err.response?.data?.error || errorMessage\<close> for an axios error,
  the generic text otherwise. \<open>handleSubmit_finish\<close> is the second half of
  \<open>handleSubmit\<close> as a function on the cells: the state updates it asks for, all of which
  take effect when the instance of \<open>FileUpload\<close> that issued the request is still mounted.
\<close>

definition generic_error :: jsval where
  "generic_error = JStr ''An error occurred during processing''"

definition errorMessage_of :: "caught \<Rightarrow> jsval" where
  "errorMessage_of err =
     (case err of
        OtherError \<Rightarrow> generic_error
      | AxiosError None \<Rightarrow> generic_error
      | AxiosError (Some resp) \<Rightarrow>
          (let e = getPropOpt (data resp) ''error''
           in if truthy e then e else generic_error))"

definition handleSubmit_finish :: "settled \<Rightarrow> state \<Rightarrow> state" where
  "handleSubmit_finish s st =
     (case try_block s of
        Inr r \<Rightarrow> onProcessingComplete r st
      | Inl err \<Rightarrow>
          (let errorMessage = errorMessage_of err
           in onProcessingComplete
                \<lparr>success = False, message = JStr ''Processing failed'',
                 outputFile = JUndefined, sessionId = JUndefined, error = errorMessage\<rparr>
                (st\<lparr>error_state := errorMessage\<rparr>)))"

text \<open>
  One whole submission with nothing else happening in between: the request settles to \<open>s\<close>,
  and the result is what \<open>onProcessingComplete\<close> received, if it was called at all.
\<close>

definition handleSubmit :: "settled \<Rightarrow> state \<Rightarrow> state" where
  "handleSubmit s st =
     (case handleSubmit_start st of
        (st', None) \<Rightarrow> st'
      | (st', Some body) \<Rightarrow> handleSubmit_finish s st')"

definition submit_result :: "settled \<Rightarrow> state \<Rightarrow> results option" where
  "submit_result s st =
     (case handleSubmit_start st of
        (st', None) \<Rightarrow> None
      | (st', Some body) \<Rightarrow> processingResults (handleSubmit_finish s st'))"

subsection \<open>Mounting, unmounting and failing renders\<close>

text \<open>
  What React renders as a child: strings and numbers as text, booleans, \<open>null\<close> and
  \<open>undefined\<close> as nothing, an array element by element; a plain object makes the render
  throw.
\<close>

fun renderable :: "jsval \<Rightarrow> bool" where
  "renderable (JObj kvs) = False"
| "renderable (JArr xs) = list_all renderable xs"
| "renderable v = True"

text \<open>
  The two places where a value that came from the server is rendered as a child:
  \<open>{error && (<div>{error}</div>)}\<close> in \<open>FileUpload\<close>, and \<open>{message}\<close> in
  \<open>DownloadSection\<close>, which \<open>App\<close> renders under
  \<open>processingResults?.success && processingResults.outputFile\<close>.
\<close>

definition render_throws :: "state \<Rightarrow> bool" where
  "render_throws st =
     ((fileUploadRendered st \<and> truthy (error_state st) \<and> \<not> renderable (error_state st)) \<or>
      (case processingResults st of
         None \<Rightarrow> False
       | Some r \<Rightarrow> success r \<and> truthy (outputFile r) \<and> \<not> renderable (message r)))"

text \<open>
  The running application: the cells, the instance of \<open>FileUpload\<close> that is mounted (if
  one is; instances are numbered in the order they are mounted, and the cells of
  \<open>FileUpload\<close> in \<open>cells\<close> are those of that instance), and whether the root is still
  mounted.
\<close>

record app =
  cells :: state
  fileUpload :: "nat option"
  mounts :: nat
  rootMounted :: bool

text \<open>
  The render that follows a batch of state updates. When \<open>FileUpload\<close> is to be rendered
  and none is mounted, a new instance is mounted with the initial values of its
  \<open>useState\<close> cells; when it is not to be rendered, the mounted instance is unmounted and
  its cells are lost. There is no error boundary, so a render that throws unmounts the whole
  tree.
\<close>

definition reconcile :: "app \<Rightarrow> app" where
  "reconcile a =
     (if \<not> rootMounted a then a
      else let a' =
                 (if fileUploadRendered (cells a)
                  then (case fileUpload a of
                          Some i \<Rightarrow> a
                        | None \<Rightarrow>
                            a\<lparr>cells := (cells a)\<lparr>pdfFiles := [], excelFile := None,
                                                  uploadProgress := 0, error_state := JNull\<rparr>,
                              fileUpload := Some (mounts a), mounts := Suc (mounts a)\<rparr>)
                  else a\<lparr>fileUpload := None\<rparr>)
           in if render_throws (cells a')
              then a'\<lparr>fileUpload := None, rootMounted := False\<rparr>
              else a')"

text \<open>The object that the second half of \<open>handleSubmit\<close> hands to \<open>onProcessingComplete\<close>.\<close>

definition delivered :: "settled \<Rightarrow> results" where
  "delivered s =
     (case try_block s of
        Inr r \<Rightarrow> r
      | Inl err \<Rightarrow>
          \<lparr>success = False, message = JStr ''Processing failed'', outputFile = JUndefined,
           sessionId = JUndefined, error = errorMessage_of err\<rparr>)"

text \<open>
  A submit of the form of the mounted instance, and the settlement of a request that
  instance \<open>i\<close> issued. The state updates of one half of \<open>handleSubmit\<close> are applied
  together and followed by one render. \<open>setError\<close> on an instance that has been unmounted
  in the meantime does nothing, while \<open>onProcessingComplete\<close> updates \<open>App\<close>; once the
  root is unmounted no update has an effect.
\<close>

definition app_submit :: "app \<Rightarrow> app \<times> (nat \<times> formData) option" where
  "app_submit a =
     (case fileUpload a of
        None \<Rightarrow> (a, None)
      | Some i \<Rightarrow>
          if \<not> rootMounted a then (a, None)
          else (case handleSubmit_start (cells a) of
                  (c, request) \<Rightarrow> (reconcile (a\<lparr>cells := c\<rparr>), map_option (Pair i) request)))"

definition app_settle :: "nat \<Rightarrow> settled \<Rightarrow> app \<Rightarrow> app" where
  "app_settle i s a =
     (if \<not> rootMounted a then a
      else reconcile
             (a\<lparr>cells := (if fileUpload a = Some i then handleSubmit_finish s (cells a)
                           else onProcessingComplete (delivered s) (cells a))\<rparr>))"

subsection \<open>Concrete inputs\<close>

text \<open>Files and a submittable selection, used where a statement is run on an input.\<close>

definition pdf_a :: File where
  "pdf_a = \<lparr>name = ''a.pdf'', size_bytes = 1200, type = ''application/pdf''\<rparr>"

definition pdf_b :: File where
  "pdf_b = \<lparr>name = ''b.pdf'', size_bytes = 800, type = ''application/pdf''\<rparr>"

definition notes_txt :: File where
  "notes_txt = \<lparr>name = ''notes.txt'', size_bytes = 10, type = ''text/plain''\<rparr>"

definition sheet_x :: File where
  "sheet_x = \<lparr>name = ''x.xlsx'', size_bytes = 4096,
     type = ''application/vnd.openxmlformats-officedocument.spreadsheetml.sheet''\<rparr>"

definition sheet_y :: File where
  "sheet_y = \<lparr>name = ''y.xlsx'', size_bytes = 2048,
     type = ''application/vnd.openxmlformats-officedocument.spreadsheetml.sheet''\<rparr>"

definition ready :: state where
  "ready = initial\<lparr>pdfFiles := [pdf_a, pdf_b], excelFile := Some sheet_x\<rparr>"

text \<open>
  The application with that selection in its first instance of \<open>FileUpload\<close>, and two
  runs from it: one submission answered by a \<open>500\<close> whose \<open>error\<close> field is an object;
  and two submissions in flight, the first answered by a \<open>200\<close>, the second failing on the
  network afterwards.
\<close>

definition app_ready :: app where
  "app_ready = \<lparr>cells = ready, fileUpload = Some 0, mounts = 1, rootMounted = True\<rparr>"

definition after_object_error :: app where
  "after_object_error =
     app_settle 0
       (axios_post (HttpResponse 500 (JObj [(''error'', JObj [(''code'', JNum 1)])])))
       (fst (app_submit app_ready))"

definition after_success_then_failure :: app where
  "after_success_then_failure =
     app_settle 0 (axios_post NetworkFailure)
       (app_settle 0 (axios_post (HttpResponse 200 (JObj [(''message'', JStr ''ok'')])))
          (fst (app_submit (fst (app_submit app_ready)))))"

section \<open>Auxiliary facts\<close>

lemma endsWith_iff_suffix: "endsWith s t = suffix t s"
  unfolding endsWith_def suffix_def
  by (metis append_eq_conv_conj append_take_drop_id diff_add_inverse2 le_add2 length_append
      length_drop)

lemma endsWith_iff_append: "endsWith s t \<longleftrightarrow> (\<exists>stem. s = stem @ t)"
  by (simp add: endsWith_iff_suffix suffix_def)

text \<open>Filtering out one index is cutting the list at that index, when it is in range.\<close>

lemma filter_from_neq:
  "filter_from k (\<lambda>_ i. int i \<noteq> index) xs =
     (if int k \<le> index \<and> index < int k + int (length xs)
      then take (nat index - k) xs @ drop (Suc (nat index - k)) xs
      else xs)"
proof (induction xs arbitrary: k)
  case Nil
  show ?case by simp
next
  case (Cons x xs)
  show ?case
  proof (cases "int k = index")
    case True
    then have "filter_from (Suc k) (\<lambda>_ i. int i \<noteq> index) xs = xs"
      using Cons.IH [of "Suc k"] by simp
    with True show ?thesis by auto
  next
    case False
    show ?thesis
    proof (cases "int k < index \<and> index < int k + int (length (x # xs))")
      case True
      then have "nat index - k = Suc (nat index - Suc k)" by linarith
      with True False show ?thesis using Cons.IH [of "Suc k"] by simp
    next
      case outside: False
      with False show ?thesis using Cons.IH [of "Suc k"] by auto
    qed
  qed
qed

text \<open>Rounding a quotient of byte counts, in integer arithmetic.\<close>

lemma round_quotient:
  assumes "b \<noteq> 0"
  shows "round (rat_of_nat a / rat_of_nat b) = (2 * int a + int b) div (2 * int b)"
proof -
  have "rat_of_nat a / rat_of_nat b + 1 / 2 =
          rat_of_int (2 * int a + int b) / rat_of_int (2 * int b)"
    using assms by (simp add: field_simps)
  then have "round (rat_of_nat a / rat_of_nat b) =
          \<lfloor>rat_of_int (2 * int a + int b) / rat_of_int (2 * int b)\<rfloor>"
    by (simp add: round_def)
  then show ?thesis
    by (simp only: floor_divide_of_int_eq)
qed

lemma round_percent_range:
  assumes "t \<noteq> 0" and "l \<le> t"
  shows "0 \<le> round (rat_of_nat l * 100 / rat_of_nat t)"
    and "round (rat_of_nat l * 100 / rat_of_nat t) \<le> 100"
proof -
  have pos: "0 < rat_of_nat t" using assms by simp
  have le: "rat_of_nat l \<le> rat_of_nat t" using assms by simp
  have "0 \<le> rat_of_nat l * 100 / rat_of_nat t" by simp
  then have "round (0::rat) \<le> round (rat_of_nat l * 100 / rat_of_nat t)"
    by (rule round_mono)
  then show "0 \<le> round (rat_of_nat l * 100 / rat_of_nat t)" by simp
  have "rat_of_nat l * 100 / rat_of_nat t \<le> 100"
    using pos le by (simp add: pos_divide_le_eq)
  then have "round (rat_of_nat l * 100 / rat_of_nat t) \<le> round (100::rat)"
    by (rule round_mono)
  then show "round (rat_of_nat l * 100 / rat_of_nat t) \<le> 100" by simp
qed

text \<open>Rounding to a double: the error bound, and the values that are held exactly.\<close>

lemma roundTiesToEven_error: "\<bar>of_int (roundTiesToEven y) - y\<bar> \<le> 1 / 2"
  unfolding roundTiesToEven_def Let_def by (auto simp: abs_if) linarith+

lemma roundTiesToEven_of_int: "roundTiesToEven (of_int n) = n"
  by (simp add: roundTiesToEven_def)

lemma binade_bounds:
  assumes "0 < x"
  shows "2 powi binade x \<le> x" and "x < 2 powi (binade x + 1)"
proof -
  have "2 powi binade x \<le> x \<and> x < 2 powi (binade x + 1)"
  proof (cases "1 \<le> x")
    case True
    define n where "n = nat \<lfloor>x\<rfloor>"
    define f where "f = floorlog 2 n"
    have "1 \<le> \<lfloor>x\<rfloor>" using True by linarith
    then have n1: "1 \<le> n" unfolding n_def by linarith
    have fb: "2 ^ (f - 1) \<le> n" "n < 2 ^ f"
      using floorlog_bounds [of n 2] n1 by (simp_all add: f_def)
    have f1: "1 \<le> f" using fb n1 by (cases f) auto
    have be: "binade x = int (f - 1)" using True f1 by (simp add: binade_def f_def n_def)
    have nx: "rat_of_nat n \<le> x" using True by (simp add: n_def)
    have xn: "x < rat_of_nat (n + 1)" using True by (simp add: n_def) linarith
    have "(2::rat) ^ (f - 1) \<le> rat_of_nat n"
      using of_nat_mono [OF fb(1), where 'a = rat] by simp
    then have lo: "(2::rat) ^ (f - 1) \<le> x" using nx by (rule order_trans)
    have "n + 1 \<le> 2 ^ f" using fb(2) by simp
    then have "rat_of_nat (n + 1) \<le> (2::rat) ^ f"
      using of_nat_mono [of "n + 1" "2 ^ f", where 'a = rat] by simp
    with xn have hi: "x < (2::rat) ^ f" by (rule less_le_trans)
    have e1: "2 powi binade x = (2::rat) ^ (f - 1)"
      by (simp only: be power_int_of_nat)
    have "binade x + 1 = int f" using be f1 by simp
    then have e2: "2 powi (binade x + 1) = (2::rat) ^ f"
      by (simp only: power_int_of_nat)
    show ?thesis using lo hi by (simp only: e1 e2)
  next
    case False
    define y where "y = 1 / x"
    define n where "n = nat (\<lceil>y\<rceil> - 1)"
    define f where "f = floorlog 2 n"
    have y1: "1 < y" using False assms by (simp add: y_def)
    then have cy: "2 \<le> \<lceil>y\<rceil>" by linarith
    have n1: "1 \<le> n" unfolding n_def using cy by linarith
    have fb: "2 ^ (f - 1) \<le> n" "n < 2 ^ f"
      using floorlog_bounds [of n 2] n1 by (simp_all add: f_def)
    have f1: "1 \<le> f" using fb n1 by (cases f) auto
    have be: "binade x = - int f" using False by (simp add: binade_def f_def n_def y_def)
    have ny: "rat_of_nat n < y" using cy by (simp add: n_def) linarith
    have yn: "y \<le> rat_of_nat (n + 1)" using cy by (simp add: n_def)
    have "(2::rat) ^ (f - 1) \<le> rat_of_nat n"
      using of_nat_mono [OF fb(1), where 'a = rat] by simp
    then have lo: "(2::rat) ^ (f - 1) < y" using ny by (rule le_less_trans)
    have "n + 1 \<le> 2 ^ f" using fb(2) by simp
    then have "rat_of_nat (n + 1) \<le> (2::rat) ^ f"
      using of_nat_mono [of "n + 1" "2 ^ f", where 'a = rat] by simp
    with yn have hi: "y \<le> (2::rat) ^ f" by (rule order_trans)
    have a: "1 / (2::rat) ^ f \<le> x"
      using hi assms by (simp add: y_def field_simps)
    have b: "x < 1 / (2::rat) ^ (f - 1)"
      using lo assms by (simp add: y_def field_simps)
    have e1: "2 powi binade x = 1 / (2::rat) ^ f"
      by (simp only: be power_int_minus_divide power_int_of_nat)
    have "binade x + 1 = - int (f - 1)" using be f1 by simp
    then have e2: "2 powi (binade x + 1) = 1 / (2::rat) ^ (f - 1)"
      by (simp only: power_int_minus_divide power_int_of_nat)
    show ?thesis using a b by (simp only: e1 e2)
  qed
  then show "2 powi binade x \<le> x" and "x < 2 powi (binade x + 1)" by simp_all
qed


lemma double_of_pos:
  assumes "0 < x"
  shows "double_of x =
           rat_of_int (roundTiesToEven (x / 2 powi (binade x - 52))) * 2 powi (binade x - 52)"
  using assms by (simp add: double_of_def Let_def)

lemma double_of_error:
  assumes "0 < x"
  shows "\<bar>double_of x - x\<bar> \<le> x / 2 ^ 53"
proof -
  define u :: rat where "u = 2 powi (binade x - 52)"
  have u0: "0 < u" by (simp add: u_def)
  have "2 powi binade x = u * (2::rat) ^ 52"
    by (simp add: u_def power_int_diff)
  then have ux: "u * 2 ^ 52 \<le> x" using binade_bounds(1) [OF assms] by simp
  define R where "R = rat_of_int (roundTiesToEven (x / u))"
  have "\<bar>R - x / u\<bar> \<le> 1 / 2"
    unfolding R_def by (rule roundTiesToEven_error)
  then have A: "\<bar>R - x / u\<bar> * u \<le> 1 / 2 * u"
    using u0 by (simp only: mult_le_cancel_right_pos)
  have B: "\<bar>R - x / u\<bar> * u = \<bar>R * u - x\<bar>"
  proof -
    have eq: "R * u - x = (R - x / u) * u"
      using u0 by (simp add: left_diff_distrib)
    have "\<bar>R * u - x\<bar> = \<bar>(R - x / u) * u\<bar>" by (simp only: eq)
    also have "\<dots> = \<bar>R - x / u\<bar> * \<bar>u\<bar>" by (rule abs_mult)
    also have "\<dots> = \<bar>R - x / u\<bar> * u" using u0 by simp
    finally show ?thesis by simp
  qed
  have C: "double_of x = R * u"
    by (simp add: double_of_pos [OF assms] u_def R_def)
  have "\<bar>R * u - x\<bar> \<le> 1 / 2 * u" using A by (simp only: B)
  then have "\<bar>double_of x - x\<bar> \<le> u / 2" unfolding C by simp
  moreover have "u / 2 \<le> x / 2 ^ 53" using ux by simp
  ultimately show ?thesis by linarith
qed

lemma double_of_exact:
  assumes "0 < x" and "x * 2 ^ m = rat_of_int n" and "x < 2 ^ (53 - m)" and "m \<le> 53"
  shows "double_of x = x"
proof -
  define u :: rat where "u = 2 powi (binade x - 52)"
  have u0: "0 < u" by (simp add: u_def)
  have "2 powi binade x < (2::rat) powi int (53 - m)"
    using binade_bounds(1) [OF assms(1)] assms(3) by simp
  then have "binade x < int (53 - m)"
    by (rule power_int_le_imp_less_exp [rotated]) simp_all
  then have k0: "0 \<le> 52 - binade x - int m" using assms(4) by linarith
  define k where "k = nat (52 - binade x - int m)"
  have "52 - binade x = int (m + k)" using k0 by (simp add: k_def)
  then have "2 powi (52 - binade x) = (2::rat) ^ (m + k)"
    by (simp only: power_int_of_nat)
  then have "2 powi (52 - binade x) = (2::rat) ^ m * 2 ^ k"
    by (simp only: power_add)
  moreover have "x / u = x * 2 powi (52 - binade x)"
    by (simp add: u_def power_int_diff field_simps)
  ultimately have "x / u = (x * 2 ^ m) * 2 ^ k" by simp
  then have "x / u = rat_of_int (n * 2 ^ k)" using assms(2) by simp
  then have "roundTiesToEven (x / u) = n * 2 ^ k"
    by (simp only: roundTiesToEven_of_int)
  then have "rat_of_int (roundTiesToEven (x / u)) = x / u"
    using \<open>x / u = rat_of_int (n * 2 ^ k)\<close> by simp
  then have "double_of x = x / u * u"
    by (simp add: double_of_pos [OF assms(1)] u_def)
  then show ?thesis using u0 by simp
qed

lemma round_double_quotient:
  assumes "0 < a" and "a < 2 ^ 52" and "0 < b"
  shows "round (double_of (rat_of_nat a / rat_of_nat b)) = round (rat_of_nat a / rat_of_nat b)"
proof -
  define q where "q = rat_of_nat a / rat_of_nat b"
  define k where "k = round q"
  define d where "d = double_of q"
  have b0: "0 < rat_of_nat b" using assms by simp
  have q0: "0 < q" using assms by (simp add: q_def)
  have qa: "q \<le> rat_of_nat a"
    using assms by (simp add: q_def field_simps mult_le_cancel_left1)
  have a52: "rat_of_nat a < 2 ^ 52"
    using of_nat_less_iff [of a "2 ^ 52", where 'a = rat] assms(2) by simp
  have klo: "rat_of_int k \<le> q + 1 / 2" and khi: "q + 1 / 2 < rat_of_int k + 1"
    unfolding k_def round_def by linarith+
  have err: "\<bar>d - q\<bar> < 1 / (2 * rat_of_nat b)"
  proof -
    have "\<bar>d - q\<bar> \<le> q / 2 ^ 53" unfolding d_def by (rule double_of_error [OF q0])
    moreover have "q / 2 ^ 53 < 1 / (2 * rat_of_nat b)"
      using a52 b0 by (simp add: q_def field_simps)
    ultimately show ?thesis by linarith
  qed
  have upper: "d + 1 / 2 < rat_of_int k + 1"
  proof -
    have "rat_of_int (2 * int a) < rat_of_int ((2 * k + 1) * int b)"
      using khi b0 by (simp add: q_def field_simps)
    then have "2 * int a < (2 * k + 1) * int b" by (simp only: of_int_less_iff)
    then have "2 * int a + 1 \<le> (2 * k + 1) * int b" by linarith
    then have "rat_of_int (2 * int a + 1) \<le> rat_of_int ((2 * k + 1) * int b)"
      by (simp only: of_int_le_iff)
    then have "q + 1 / (2 * rat_of_nat b) \<le> rat_of_int k + 1 / 2"
      using b0 by (simp add: q_def field_simps)
    then show ?thesis using err by linarith
  qed
  have lower: "rat_of_int k \<le> d + 1 / 2"
  proof (cases "(2 * k - 1) * int b = 2 * int a")
    case True
    then have "rat_of_int ((2 * k - 1) * int b) = rat_of_int (2 * int a)" by simp
    then have "q * 2 ^ 1 = rat_of_int (2 * k - 1)"
      using b0 by (simp add: q_def field_simps)
    moreover have "q < 2 ^ (53 - 1)" using qa a52 by simp
    ultimately have "d = q"
      unfolding d_def using double_of_exact [OF q0, of 1 "2 * k - 1"] by simp
    then show ?thesis using klo by simp
  next
    case False
    have "rat_of_int ((2 * k - 1) * int b) \<le> rat_of_int (2 * int a)"
      using klo b0 by (simp add: q_def field_simps)
    then have "(2 * k - 1) * int b \<le> 2 * int a" by (simp only: of_int_le_iff)
    with False have "(2 * k - 1) * int b + 1 \<le> 2 * int a" by linarith
    then have "rat_of_int ((2 * k - 1) * int b + 1) \<le> rat_of_int (2 * int a)"
      by (simp only: of_int_le_iff)
    then have i: "rat_of_int k * (2 * rat_of_nat b) + 1 \<le> rat_of_nat b + 2 * rat_of_nat a"
      by (simp add: algebra_simps)
    have l: "(rat_of_int k + 1 / (2 * rat_of_nat b)) * (2 * rat_of_nat b) =
          rat_of_int k * (2 * rat_of_nat b) + 1"
      using b0 by (simp add: distrib_right)
    have r: "(q + 1 / 2) * (2 * rat_of_nat b) = 2 * rat_of_nat a + rat_of_nat b"
      using b0 by (simp add: q_def distrib_right)
    have "(rat_of_int k + 1 / (2 * rat_of_nat b)) * (2 * rat_of_nat b) \<le>
          (q + 1 / 2) * (2 * rat_of_nat b)"
      unfolding l r using i by linarith
    then have "rat_of_int k + 1 / (2 * rat_of_nat b) \<le> q + 1 / 2"
      using b0 by (simp only: mult_le_cancel_right_pos [of "2 * rat_of_nat b"])
    then show ?thesis using err by linarith
  qed
  have "round d = k"
    unfolding round_def using lower upper by (intro floor_unique) simp_all
  then show ?thesis by (simp add: d_def k_def q_def)
qed

lemma roundTiesToEven_near:
  assumes "\<bar>y - rat_of_int n\<bar> < 1 / 2"
  shows "roundTiesToEven y = n"
proof -
  have "\<bar>rat_of_int (roundTiesToEven y) - y\<bar> \<le> 1 / 2" by (rule roundTiesToEven_error)
  with assms have "\<bar>rat_of_int (roundTiesToEven y) - rat_of_int n\<bar> < 1" by linarith
  then have "\<bar>rat_of_int (roundTiesToEven y - n)\<bar> < rat_of_int 1" by simp
  then have "\<bar>roundTiesToEven y - n\<bar> < 1"
    by (simp only: of_int_abs [symmetric] of_int_less_iff)
  then show ?thesis by linarith
qed

lemma binade_eqI:
  assumes "0 < x" and "2 powi e \<le> x" and "x < 2 powi (e + 1)"
  shows "binade x = e"
proof -
  have "(2::rat) powi e < 2 powi (binade x + 1)"
    using assms(2) binade_bounds(2) [OF assms(1)] by linarith
  then have "e < binade x + 1"
    using power_int_increasing [of "binade x + 1" e "2::rat"] by (cases "e < binade x + 1") auto
  moreover have "(2::rat) powi binade x < 2 powi (e + 1)"
    using assms(3) binade_bounds(1) [OF assms(1)] by linarith
  then have "binade x < e + 1"
    using power_int_increasing [of "e + 1" "binade x" "2::rat"] by (cases "binade x < e + 1") auto
  ultimately show ?thesis by linarith
qed

text \<open>
  Within the bound \<open>100 * loaded < 2^52\<close> the double arithmetic of the handler agrees with
  exact arithmetic.
\<close>

lemma percentCompleted_known:
  assumes "100 * l < 2 ^ 52" and "t \<noteq> 0"
  shows "percentCompleted \<lparr>loaded = l, total = Some t\<rparr> =
           round (rat_of_nat l * 100 / rat_of_nat t)"
proof (cases "l = 0")
  case True
  then show ?thesis by (simp add: percentCompleted_def double_of_def)
next
  case False
  have lt: "rat_of_nat (l * 100) < 2 ^ 52"
    using of_nat_less_iff [of "l * 100" "2 ^ 52", where 'a = rat] assms(1)
    by (simp add: mult.commute)
  have "double_of (rat_of_nat (l * 100)) = rat_of_nat (l * 100)"
    using False lt by (intro double_of_exact [of _ 0 "int (l * 100)"]) simp_all
  then have "percentCompleted \<lparr>loaded = l, total = Some t\<rparr> =
        round (double_of (rat_of_nat (l * 100) / rat_of_nat t))"
    using False assms(2) by (simp add: percentCompleted_def)
  also have "\<dots> = round (rat_of_nat (l * 100) / rat_of_nat t)"
    using False assms by (intro round_double_quotient) (simp_all add: mult.commute)
  finally show ?thesis by simp
qed

lemma percentCompleted_fallback:
  assumes "100 * l < 2 ^ 52"
  shows "percentCompleted \<lparr>loaded = l, total = None\<rparr> = int l"
    and "percentCompleted \<lparr>loaded = l, total = Some 0\<rparr> = int l"
proof -
  have zero: "round (double_of 0) = 0" by (simp add: double_of_def)
  have main: "round (double_of (double_of (rat_of_nat l * 100) / 100)) = int l" if "l \<noteq> 0"
  proof -
    have lt: "rat_of_nat (l * 100) < 2 ^ 52"
      using of_nat_less_iff [of "l * 100" "2 ^ 52", where 'a = rat] assms
      by (simp add: mult.commute)
    then have lt': "rat_of_nat l < 2 ^ 52" by simp
    have p: "double_of (rat_of_nat (l * 100)) = rat_of_nat (l * 100)"
      using that lt by (intro double_of_exact [of _ 0 "int (l * 100)"]) simp_all
    have q: "double_of (rat_of_nat l) = rat_of_nat l"
      using that lt' by (intro double_of_exact [of _ 0 "int l"]) simp_all
    show ?thesis using p q by simp
  qed
  show "percentCompleted \<lparr>loaded = l, total = None\<rparr> = int l"
    using main zero by (cases "l = 0") (simp_all add: percentCompleted_def)
  show "percentCompleted \<lparr>loaded = l, total = Some 0\<rparr> = int l"
    using main zero by (cases "l = 0") (simp_all add: percentCompleted_def)
qed

text \<open>
  The bound cannot be dropped: at \<open>loaded = 51600000000109\<close> and
  \<open>total = 80000000000169\<close> the product is still exact, the double nearest to the quotient
  is \<open>64.5\<close>, and the handler yields \<open>65\<close> where exact arithmetic rounds to \<open>64\<close>.
\<close>

lemma percentCompleted_beyond_bound:
  "percentCompleted \<lparr>loaded = 51600000000109, total = Some 80000000000169\<rparr> = 65 \<and>
   round (rat_of_nat 51600000000109 * 100 / rat_of_nat 80000000000169) = 64"
proof -
  define q :: rat where "q = 5160000000010900 / 80000000000169"
  have q0: "0 < q" by (simp add: q_def)
  have p: "double_of 5160000000010900 = 5160000000010900"
    by (rule double_of_exact [of _ 0 5160000000010900]) simp_all
  have b: "binade q = 6"
    using q0 by (rule binade_eqI) (simp_all add: q_def)
  have "roundTiesToEven (q / 2 powi (6 - 52)) = 4538783999459328"
    by (rule roundTiesToEven_near) (simp add: q_def power_int_minus_divide)
  then have d: "double_of q = 129 / 2"
    by (simp add: double_of_pos [OF q0] b power_int_minus_divide)
  have "round (double_of q) = 65" unfolding d round_def by simp
  then have code: "percentCompleted \<lparr>loaded = 51600000000109, total = Some 80000000000169\<rparr> = 65"
    using p by (simp add: percentCompleted_def q_def)
  have "round (rat_of_nat 5160000000010900 / rat_of_nat 80000000000169) = 64"
    using round_quotient [of 80000000000169 5160000000010900] by simp
  then have exact: "round (rat_of_nat 51600000000109 * 100 / rat_of_nat 80000000000169) = 64"
    by simp
  from code exact show ?thesis by simp
qed

text \<open>The first half of \<open>handleSubmit\<close> on a submittable selection.\<close>

lemma handleSubmit_start_enabled:
  "\<not> submitDisabled st \<Longrightarrow>
   handleSubmit_start st =
     (st\<lparr>error_state := JNull, isProcessing := True\<rparr>,
      Some (map (\<lambda>file. (''pdfFiles'', file)) (pdfFiles st) @
            [(''excelFile'', the (excelFile st))]))"
  by (simp add: submitDisabled_def handleSubmit_start_def)

lemma submit_result_enabled:
  "\<not> submitDisabled st \<Longrightarrow>
   submit_result s st =
     processingResults (handleSubmit_finish s (st\<lparr>error_state := JNull, isProcessing := True\<rparr>))"
  by (simp add: submit_result_def handleSubmit_start_enabled)

lemma ready_enabled: "\<not> submitDisabled ready"
  by (simp add: submitDisabled_def ready_def initial_def)

text \<open>The application layer on a failure that can be rendered.\<close>

lemma delivered_result: "processingResults (handleSubmit_finish s st) = Some (delivered s)"
  by (simp add: handleSubmit_finish_def delivered_def onProcessingComplete_def Let_def
      split: sum.splits)

lemma handleSubmit_finish_failure:
  "\<not> success (delivered s) \<Longrightarrow>
   handleSubmit_finish s st =
     st\<lparr>error_state := error (delivered s), processingResults := Some (delivered s),
        isProcessing := False\<rparr>"
  by (auto simp add: handleSubmit_finish_def delivered_def onProcessingComplete_def Let_def
      try_block_def split: sum.splits settled.splits)

lemma app_submit_enabled:
  assumes "rootMounted a" and "fileUpload a = Some i" and "fileUploadRendered (cells a)"
    and "\<not> submitDisabled (cells a)"
  shows "app_submit a =
           (a\<lparr>cells := (cells a)\<lparr>error_state := JNull, isProcessing := True\<rparr>\<rparr>,
            Some (i, map (\<lambda>file. (''pdfFiles'', file)) (pdfFiles (cells a)) @
                     [(''excelFile'', the (excelFile (cells a)))]))"
  using assms
  by (auto simp add: app_submit_def handleSubmit_start_enabled reconcile_def render_throws_def
      fileUploadRendered_def Let_def split: option.splits)

lemma app_settle_failure:
  assumes "rootMounted a" and "fileUpload a = Some i" and "\<not> success (delivered s)"
    and "renderable (error (delivered s))"
  shows "app_settle i s a =
           a\<lparr>cells := (cells a)\<lparr>error_state := error (delivered s),
                                 processingResults := Some (delivered s),
                                 isProcessing := False\<rparr>\<rparr>"
  using assms
  by (simp add: app_settle_def handleSubmit_finish_failure reconcile_def render_throws_def
      fileUploadRendered_def Let_def)

section \<open>The file selection store\<close>

text \<open>
  Claim C6. For every call of \<open>onDropPdf\<close> (the specification's \<open>addDocuments\<close>) the
  document sequence afterwards is the old sequence followed by exactly the candidates whose
  media type is \<open>application/pdf\<close>, in the order they had among the candidates; the
  spreadsheet slot is untouched. When no candidate passes the filter, the only change is the
  rejection reason put into the error banner, so the document sequence is unchanged.
\<close>

theorem onDropPdf_appends_accepted:
  "pdfFiles (onDropPdf candidates st) =
     pdfFiles st @ filter (\<lambda>file. type file = ''application/pdf'') candidates \<and>
   excelFile (onDropPdf candidates st) = excelFile st \<and>
   (filter (\<lambda>file. type file = ''application/pdf'') candidates = [] \<longrightarrow>
      onDropPdf candidates st = st\<lparr>error_state := JStr ''Please upload valid PDF files''\<rparr>)"
  by (simp add: onDropPdf_def Let_def)

theorem onDropPdf_appends_accepted_witness:
  "filter (\<lambda>file. type file = ''application/pdf'') [notes_txt] = [] \<and>
   onDropPdf [notes_txt] ready = ready\<lparr>error_state := JStr ''Please upload valid PDF files''\<rparr> \<and>
   pdfFiles (onDropPdf [notes_txt, pdf_b, notes_txt, pdf_a] ready) = [pdf_a, pdf_b, pdf_b, pdf_a]"
  using onDropPdf_appends_accepted [of "[notes_txt]" ready]
    onDropPdf_appends_accepted [of "[notes_txt, pdf_b, notes_txt, pdf_a]" ready]
  by (simp add: notes_txt_def pdf_a_def pdf_b_def ready_def initial_def)

text \<open>
  Claim C7. \<open>onDropExcel\<close> (the specification's \<open>setSpreadsheet\<close>) looks at the first
  candidate handed to it. It accepts it exactly when its name is some stem followed by
  \<open>.xlsx\<close>: then the candidate becomes the spreadsheet whatever was set before and the error
  banner is cleared. Otherwise, and when there is no candidate at all, only the error banner
  changes, so the spreadsheet set before stays. Two accepted calls in a row leave the second
  candidate.
\<close>

theorem onDropExcel_last_write_wins:
  "((\<exists>stem. name candidate = stem @ ''.xlsx'') \<longrightarrow>
      onDropExcel (candidate # rest) st =
        st\<lparr>excelFile := Some candidate, error_state := JNull\<rparr>) \<and>
   (\<not> (\<exists>stem. name candidate = stem @ ''.xlsx'') \<longrightarrow>
      onDropExcel (candidate # rest) st =
        st\<lparr>error_state := JStr ''Please upload a valid Excel file (.xlsx)''\<rparr>) \<and>
   onDropExcel [] st = st\<lparr>error_state := JStr ''Please upload a valid Excel file (.xlsx)''\<rparr> \<and>
   ((\<exists>stem. name first = stem @ ''.xlsx'') \<and> (\<exists>stem. name second = stem @ ''.xlsx'') \<longrightarrow>
      excelFile (onDropExcel [second] (onDropExcel [first] st)) = Some second)"
  by (simp add: onDropExcel_def endsWith_iff_append del: append_eq_append_conv)

theorem onDropExcel_last_write_wins_witness:
  "(\<exists>stem. name sheet_x = stem @ ''.xlsx'') \<and>
   (\<exists>stem. name sheet_y = stem @ ''.xlsx'') \<and>
   \<not> (\<exists>stem. name notes_txt = stem @ ''.xlsx'') \<and>
   excelFile (onDropExcel [sheet_y] (onDropExcel [sheet_x] initial)) = Some sheet_y \<and>
   excelFile (onDropExcel [notes_txt] ready) = Some sheet_x"
proof -
  have x: "\<exists>stem. name sheet_x = stem @ ''.xlsx''"
    using endsWith_iff_append [of "name sheet_x" "''.xlsx''"]
    by (simp add: endsWith_def sheet_x_def)
  have y: "\<exists>stem. name sheet_y = stem @ ''.xlsx''"
    using endsWith_iff_append [of "name sheet_y" "''.xlsx''"]
    by (simp add: endsWith_def sheet_y_def)
  have n: "\<not> (\<exists>stem. name notes_txt = stem @ ''.xlsx'')"
    using endsWith_iff_append [of "name notes_txt" "''.xlsx''"]
    by (simp add: endsWith_def notes_txt_def)
  have "excelFile (onDropExcel [sheet_y] (onDropExcel [sheet_x] initial)) = Some sheet_y"
    using x y onDropExcel_last_write_wins [of sheet_x "[]" initial sheet_x sheet_y] by blast
  moreover have "excelFile (onDropExcel [notes_txt] ready) = Some sheet_x"
    using n onDropExcel_last_write_wins [of notes_txt "[]" ready sheet_x sheet_y]
    by (simp add: ready_def)
  ultimately show ?thesis using x y n by blast
qed

text \<open>
  Claim C9. \<open>removePdfFile index\<close> (the specification's \<open>removeDocumentAt\<close>) changes
  nothing when the index is negative or not below the length of the document sequence.
  Otherwise the new sequence is the elements before the index followed by the elements after
  it, so exactly that element is gone and the others keep their order; no other part of the
  state changes.
\<close>

theorem removePdfFile_removes_exactly:
  "(index < 0 \<or> int (length (pdfFiles st)) \<le> index \<longrightarrow> removePdfFile index st = st) \<and>
   (0 \<le> index \<and> index < int (length (pdfFiles st)) \<longrightarrow>
      removePdfFile index st =
        st\<lparr>pdfFiles := take (nat index) (pdfFiles st) @ drop (Suc (nat index)) (pdfFiles st)\<rparr>)"
  by (simp add: removePdfFile_def filter_indexed_def filter_from_neq)

theorem removePdfFile_removes_exactly_witness:
  "removePdfFile 2 ready = ready \<and> removePdfFile (- 1) ready = ready \<and>
   (0::int) \<le> 1 \<and> 1 < int (length (pdfFiles ready)) \<and>
   pdfFiles (removePdfFile 1 ready) = [pdf_a] \<and>
   pdfFiles (removePdfFile 0 ready) = [pdf_b]"
  using removePdfFile_removes_exactly [of 2 ready] removePdfFile_removes_exactly [of "- 1" ready]
    removePdfFile_removes_exactly [of 1 ready] removePdfFile_removes_exactly [of 0 ready]
  by (simp add: ready_def initial_def)

section \<open>The validation gate\<close>

text \<open>
  Claim C5. The submit action is enabled (the button is not disabled) if and only if there is
  at least one document and a spreadsheet is present, and \<open>handleSubmit\<close> issues a request
  under exactly the same condition; this holds in every state, reachable or not. When the
  condition holds, \<open>handleSubmit\<close> clears the error banner, sets \<open>isProcessing\<close> and
  issues one request carrying every document and the spreadsheet, and a result is delivered
  when it settles. When it does not hold at the time \<open>handleSubmit\<close> runs, the validation
  message is put into the error banner, no request is issued, no result is produced, and
  \<open>isProcessing\<close> and the stored result stay as they were, so an idle session stays idle.
\<close>

theorem submit_gate:
  "(\<not> submitDisabled st \<longleftrightarrow> 1 \<le> length (pdfFiles st) \<and> excelFile st \<noteq> None) \<and>
   (snd (handleSubmit_start st) \<noteq> None \<longleftrightarrow>
      1 \<le> length (pdfFiles st) \<and> excelFile st \<noteq> None) \<and>
   (\<not> submitDisabled st \<longrightarrow>
      handleSubmit_start st =
        (st\<lparr>error_state := JNull, isProcessing := True\<rparr>,
         Some (map (\<lambda>file. (''pdfFiles'', file)) (pdfFiles st) @
               [(''excelFile'', the (excelFile st))])) \<and>
      (\<exists>r. submit_result s st = Some r)) \<and>
   (submitDisabled st \<longrightarrow>
      handleSubmit_start st =
        (st\<lparr>error_state := JStr ''Please upload both PDF files and an Excel file''\<rparr>, None) \<and>
      isProcessing (fst (handleSubmit_start st)) = isProcessing st \<and>
      processingResults (fst (handleSubmit_start st)) = processingResults st \<and>
      handleSubmit s st =
        st\<lparr>error_state := JStr ''Please upload both PDF files and an Excel file''\<rparr> \<and>
      submit_result s st = None)"
proof -
  have gate: "\<not> submitDisabled st \<longleftrightarrow> 1 \<le> length (pdfFiles st) \<and> excelFile st \<noteq> None"
    by (auto simp add: submitDisabled_def Suc_le_eq)
  have passes: "\<not> submitDisabled st \<longrightarrow>
      handleSubmit_start st =
        (st\<lparr>error_state := JNull, isProcessing := True\<rparr>,
         Some (map (\<lambda>file. (''pdfFiles'', file)) (pdfFiles st) @
               [(''excelFile'', the (excelFile st))])) \<and>
      (\<exists>r. submit_result s st = Some r)"
    by (simp add: handleSubmit_start_enabled submit_result_enabled delivered_result)
  have rejects: "submitDisabled st \<longrightarrow>
      handleSubmit_start st =
        (st\<lparr>error_state := JStr ''Please upload both PDF files and an Excel file''\<rparr>, None) \<and>
      isProcessing (fst (handleSubmit_start st)) = isProcessing st \<and>
      processingResults (fst (handleSubmit_start st)) = processingResults st \<and>
      handleSubmit s st =
        st\<lparr>error_state := JStr ''Please upload both PDF files and an Excel file''\<rparr> \<and>
      submit_result s st = None"
    by (auto simp add: submitDisabled_def handleSubmit_start_def submit_result_def
        handleSubmit_def)
  have issue: "snd (handleSubmit_start st) \<noteq> None \<longleftrightarrow>
      1 \<le> length (pdfFiles st) \<and> excelFile st \<noteq> None"
    using gate passes rejects by (cases "submitDisabled st") auto
  from gate issue passes rejects show ?thesis by blast
qed

theorem submit_gate_witness:
  "submitDisabled initial \<and> submitDisabled (onDropPdf [pdf_a] initial) \<and>
   submitDisabled (onDropExcel [sheet_x] initial) \<and>
   \<not> submitDisabled (onDropExcel [sheet_x] (onDropPdf [pdf_a] initial)) \<and>
   snd (handleSubmit_start (onDropPdf [pdf_a] initial)) = None \<and>
   isProcessing (fst (handleSubmit_start (onDropPdf [pdf_a] initial))) = False \<and>
   submit_result (axios_post (HttpResponse 200 (JObj []))) (onDropPdf [pdf_a] initial) = None \<and>
   \<not> submitDisabled ready \<and>
   handleSubmit_start ready =
     (ready\<lparr>error_state := JNull, isProcessing := True\<rparr>,
      Some [(''pdfFiles'', pdf_a), (''pdfFiles'', pdf_b), (''excelFile'', sheet_x)])"
proof -
  have d: "submitDisabled (onDropPdf [pdf_a] initial)"
    by (simp add: submitDisabled_def onDropPdf_def initial_def pdf_a_def)
  have e: "\<not> submitDisabled (onDropExcel [sheet_x] (onDropPdf [pdf_a] initial))"
    by (simp add: submitDisabled_def onDropPdf_def onDropExcel_def endsWith_def initial_def
        pdf_a_def sheet_x_def)
  have i: "submitDisabled initial \<and> submitDisabled (onDropExcel [sheet_x] initial)"
    by (simp add: submitDisabled_def onDropExcel_def endsWith_def initial_def sheet_x_def)
  have p: "isProcessing (onDropPdf [pdf_a] initial) = False"
    by (simp add: onDropPdf_def initial_def pdf_a_def)
  have f: "pdfFiles ready = [pdf_a, pdf_b] \<and> excelFile ready = Some sheet_x"
    by (simp add: ready_def)
  show ?thesis
    using d e i p f ready_enabled
      submit_gate [of "onDropPdf [pdf_a] initial" "axios_post (HttpResponse 200 (JObj []))"]
      submit_gate [of ready "axios_post (HttpResponse 200 (JObj []))"]
    by simp
qed

section \<open>The outcome of a submission\<close>

text \<open>
  Claim C4. For every submittable selection and every response with a status from 200 to 299
  whose body is a JSON object with a \<open>message\<close> field, the submission delivers a result
  with \<open>success\<close> true whose \<open>message\<close>, \<open>outputFile\<close> and \<open>sessionId\<close> are the
  values of those fields of the body, \<open>outputFile\<close> and \<open>sessionId\<close> being absent
  (undefined) when the body does not have them.
\<close>

theorem success_passes_fields_through:
  assumes "\<not> submitDisabled st" and "200 \<le> code" and "code < 300"
    and "map_of body ''message'' = Some m"
  shows "submit_result (axios_post (HttpResponse code (JObj body))) st =
           Some \<lparr>success = True, message = m,
                 outputFile =
                   (case map_of body ''outputFile'' of None \<Rightarrow> JUndefined | Some v \<Rightarrow> v),
                 sessionId =
                   (case map_of body ''sessionId'' of None \<Rightarrow> JUndefined | Some v \<Rightarrow> v),
                 error = JUndefined\<rparr>"
  using assms
  by (simp add: submit_result_enabled axios_post_def handleSubmit_finish_def try_block_def
      getPropOpt_def onProcessingComplete_def)

theorem success_passes_fields_through_witness:
  "\<not> submitDisabled ready \<and>
   submit_result
     (axios_post (HttpResponse 200
        (JObj [(''message'', JStr ''Updated 3 rows''), (''outputFile'', JStr ''out.xlsx''),
               (''sessionId'', JStr ''abc123'')]))) ready =
     Some \<lparr>success = True, message = JStr ''Updated 3 rows'', outputFile = JStr ''out.xlsx'',
           sessionId = JStr ''abc123'', error = JUndefined\<rparr> \<and>
   submit_result (axios_post (HttpResponse 201 (JObj [(''message'', JStr ''ok'')]))) ready =
     Some \<lparr>success = True, message = JStr ''ok'', outputFile = JUndefined,
           sessionId = JUndefined, error = JUndefined\<rparr>"
  using ready_enabled
    success_passes_fields_through [OF ready_enabled, of 200
      "[(''message'', JStr ''Updated 3 rows''), (''outputFile'', JStr ''out.xlsx''),
        (''sessionId'', JStr ''abc123'')]" "JStr ''Updated 3 rows''"]
    success_passes_fields_through [OF ready_enabled, of 201 "[(''message'', JStr ''ok'')]"
      "JStr ''ok''"]
  by simp

text \<open>
  Claim C10. However the request settles, the second half of \<open>handleSubmit\<close> delivers a
  result, and that result has \<open>error\<close> absent when \<open>success\<close> is true, and
  \<open>outputFile\<close> and \<open>sessionId\<close> absent when \<open>success\<close> is false.
\<close>

theorem result_fields_exclusive:
  "\<exists>r. processingResults (handleSubmit_finish s st) = Some r \<and>
       (success r \<longrightarrow> error r = JUndefined) \<and>
       (\<not> success r \<longrightarrow> outputFile r = JUndefined \<and> sessionId r = JUndefined)"
  by (auto simp add: handleSubmit_finish_def try_block_def onProcessingComplete_def Let_def
      split: settled.splits sum.splits)

theorem result_fields_exclusive_witness:
  "(\<exists>r. processingResults
          (handleSubmit_finish
             (axios_post (HttpResponse 200
                (JObj [(''message'', JStr ''ok''), (''error'', JStr ''ignored'')]))) ready) = Some r \<and>
        success r \<and> error r = JUndefined) \<and>
   (\<exists>r. processingResults
          (handleSubmit_finish
             (axios_post (HttpResponse 500
                (JObj [(''error'', JStr ''Malformed PDF''), (''outputFile'', JStr ''out.xlsx''),
                       (''sessionId'', JStr ''abc123'')]))) ready) = Some r \<and>
        \<not> success r \<and> outputFile r = JUndefined \<and> sessionId r = JUndefined)"
  using
    result_fields_exclusive [of
      "axios_post (HttpResponse 200
         (JObj [(''message'', JStr ''ok''), (''error'', JStr ''ignored'')]))" ready]
    result_fields_exclusive [of
      "axios_post (HttpResponse 500
         (JObj [(''error'', JStr ''Malformed PDF''), (''outputFile'', JStr ''out.xlsx''),
                (''sessionId'', JStr ''abc123'')]))" ready]
  by (simp add: axios_post_def handleSubmit_finish_def try_block_def onProcessingComplete_def
      Let_def)

text \<open>
  Claim C8, as stated: whenever a submission resolves with \<open>success\<close> false, the
  document sequence and the spreadsheet slot hold the files they held when \<open>handleSubmit\<close>
  was invoked. Two runs from the selection \<open>[a.pdf, b.pdf]\<close> with \<open>x.xlsx\<close> end in a
  failed result without that selection. In the first the \<open>error\<close> field of a \<open>500\<close>
  response is an object: it is stored in the error banner, the render of the banner throws, and
  the whole tree is unmounted. In the second, two submissions are in flight; the success of
  the first unmounts \<open>FileUpload\<close>, and the failure of the second makes \<open>App\<close> render
  \<open>FileUpload\<close> again, as a new instance with no document and no spreadsheet.
\<close>

theorem failure_store_counterexample:
  "pdfFiles (cells app_ready) = [pdf_a, pdf_b] \<and> excelFile (cells app_ready) = Some sheet_x \<and>
   processingResults (cells after_object_error) =
     Some \<lparr>success = False, message = JStr ''Processing failed'', outputFile = JUndefined,
           sessionId = JUndefined, error = JObj [(''code'', JNum 1)]\<rparr> \<and>
   rootMounted after_object_error = False \<and> fileUpload after_object_error = None \<and>
   processingResults (cells after_success_then_failure) =
     Some \<lparr>success = False, message = JStr ''Processing failed'', outputFile = JUndefined,
           sessionId = JUndefined, error = JStr ''An error occurred during processing''\<rparr> \<and>
   rootMounted after_success_then_failure = True \<and>
   fileUpload after_success_then_failure = Some 1 \<and>
   pdfFiles (cells after_success_then_failure) = [] \<and>
   excelFile (cells after_success_then_failure) = None"
  by (simp add: after_object_error_def after_success_then_failure_def app_ready_def ready_def
      initial_def app_submit_def app_settle_def handleSubmit_start_def handleSubmit_finish_def
      reconcile_def render_throws_def fileUploadRendered_def try_block_def errorMessage_of_def
      delivered_def onProcessingComplete_def axios_post_def getPropOpt_def generic_error_def
      Let_def)

text \<open>
  Claim C8, amended. Let a request issued by instance \<open>i\<close> of \<open>FileUpload\<close> settle with
  a result whose \<open>success\<close> is false and whose \<open>error\<close> can be rendered (it is not an
  object and holds none). If instance \<open>i\<close> is still mounted at that moment, the settlement
  leaves the document sequence and the spreadsheet slot as they were just before it, and
  instance \<open>i\<close> stays mounted. In particular, when the form of a mounted instance with a
  submittable selection is submitted and the request settles in this way with nothing
  happening in between, the document sequence and the spreadsheet slot are those of the moment
  \<open>handleSubmit\<close> was invoked, the failed result is stored, and the form is still rendered
  with its submit action enabled, so the user may submit again without a reset.
\<close>

theorem failure_keeps_selection:
  assumes "rootMounted a" and "fileUpload a = Some i" and "fileUploadRendered (cells a)"
    and "\<not> submitDisabled (cells a)"
    and "\<not> success (delivered s)" and "renderable (error (delivered s))"
  shows "pdfFiles (cells (app_settle i s (fst (app_submit a)))) = pdfFiles (cells a) \<and>
         excelFile (cells (app_settle i s (fst (app_submit a)))) = excelFile (cells a) \<and>
         processingResults (cells (app_settle i s (fst (app_submit a)))) = Some (delivered s) \<and>
         rootMounted (app_settle i s (fst (app_submit a))) \<and>
         fileUpload (app_settle i s (fst (app_submit a))) = Some i \<and>
         fileUploadRendered (cells (app_settle i s (fst (app_submit a)))) \<and>
         \<not> submitDisabled (cells (app_settle i s (fst (app_submit a)))) \<and>
         (\<forall>b. rootMounted b \<and> fileUpload b = Some i \<longrightarrow>
              pdfFiles (cells (app_settle i s b)) = pdfFiles (cells b) \<and>
              excelFile (cells (app_settle i s b)) = excelFile (cells b) \<and>
              rootMounted (app_settle i s b) \<and> fileUpload (app_settle i s b) = Some i)"
proof -
  have general: "\<forall>b. rootMounted b \<and> fileUpload b = Some i \<longrightarrow>
              pdfFiles (cells (app_settle i s b)) = pdfFiles (cells b) \<and>
              excelFile (cells (app_settle i s b)) = excelFile (cells b) \<and>
              rootMounted (app_settle i s b) \<and> fileUpload (app_settle i s b) = Some i"
    using assms(5,6) by (simp add: app_settle_failure)
  have start: "fst (app_submit a) =
      a\<lparr>cells := (cells a)\<lparr>error_state := JNull, isProcessing := True\<rparr>\<rparr>"
    using app_submit_enabled [OF assms(1-4)] by simp
  have fin: "app_settle i s (fst (app_submit a)) =
      a\<lparr>cells := (cells a)\<lparr>error_state := error (delivered s),
                            processingResults := Some (delivered s),
                            isProcessing := False\<rparr>\<rparr>"
    unfolding start using assms by (simp add: app_settle_failure)
  have here: "pdfFiles (cells (app_settle i s (fst (app_submit a)))) = pdfFiles (cells a) \<and>
         excelFile (cells (app_settle i s (fst (app_submit a)))) = excelFile (cells a) \<and>
         processingResults (cells (app_settle i s (fst (app_submit a)))) = Some (delivered s) \<and>
         rootMounted (app_settle i s (fst (app_submit a))) \<and>
         fileUpload (app_settle i s (fst (app_submit a))) = Some i \<and>
         fileUploadRendered (cells (app_settle i s (fst (app_submit a)))) \<and>
         \<not> submitDisabled (cells (app_settle i s (fst (app_submit a))))"
    unfolding fin using assms(1,2,4,5) by (simp add: submitDisabled_def fileUploadRendered_def)
  from here general show ?thesis by blast
qed

theorem failure_keeps_selection_witness:
  "rootMounted app_ready \<and> fileUpload app_ready = Some 0 \<and>
   fileUploadRendered (cells app_ready) \<and> \<not> submitDisabled (cells app_ready) \<and>
   delivered (axios_post (HttpResponse 500 (JObj [(''error'', JStr ''Malformed PDF'')]))) =
     \<lparr>success = False, message = JStr ''Processing failed'', outputFile = JUndefined,
      sessionId = JUndefined, error = JStr ''Malformed PDF''\<rparr> \<and>
   pdfFiles (cells (app_settle 0
      (axios_post (HttpResponse 500 (JObj [(''error'', JStr ''Malformed PDF'')])))
      (fst (app_submit app_ready)))) = [pdf_a, pdf_b] \<and>
   excelFile (cells (app_settle 0
      (axios_post (HttpResponse 500 (JObj [(''error'', JStr ''Malformed PDF'')])))
      (fst (app_submit app_ready)))) = Some sheet_x \<and>
   fileUpload (app_settle 0
      (axios_post (HttpResponse 500 (JObj [(''error'', JStr ''Malformed PDF'')])))
      (fst (app_submit app_ready))) = Some 0"
proof -
  have m: "rootMounted app_ready" and u: "fileUpload app_ready = Some 0"
    by (simp_all add: app_ready_def)
  have r: "fileUploadRendered (cells app_ready)"
    by (simp add: app_ready_def ready_def initial_def fileUploadRendered_def)
  have e: "\<not> submitDisabled (cells app_ready)"
    using ready_enabled by (simp add: app_ready_def)
  have d: "delivered (axios_post (HttpResponse 500 (JObj [(''error'', JStr ''Malformed PDF'')]))) =
     \<lparr>success = False, message = JStr ''Processing failed'', outputFile = JUndefined,
      sessionId = JUndefined, error = JStr ''Malformed PDF''\<rparr>"
    by (simp add: delivered_def axios_post_def try_block_def errorMessage_of_def getPropOpt_def
        Let_def)
  have f: "\<not> success
      (delivered (axios_post (HttpResponse 500 (JObj [(''error'', JStr ''Malformed PDF'')]))))"
    and g: "renderable (error
      (delivered (axios_post (HttpResponse 500 (JObj [(''error'', JStr ''Malformed PDF'')])))))"
    by (simp_all add: d)
  show ?thesis
    using m u r e d failure_keeps_selection [OF m u r e f g]
    by (simp add: app_ready_def ready_def initial_def)
qed

text \<open>
  Claim C2, as stated: every failed attempt, a \<open>2xx\<close> response whose body lacks
  \<open>message\<close> included, delivers \<open>success\<close> false, and the error detail is the body's
  \<open>error\<close> field whenever the body has one. The code does neither: a \<open>200\<close> response
  with a body without \<open>message\<close> delivers \<open>success\<close> true with \<open>message\<close>
  undefined, and a \<open>500\<close> response whose \<open>error\<close> field is the empty string delivers
  the generic text, since the field is taken through \<open>||\<close>.
\<close>

theorem failure_result_counterexample:
  "submit_result (axios_post (HttpResponse 200 (JObj [(''outputFile'', JStr ''out.xlsx'')]))) ready =
     Some \<lparr>success = True, message = JUndefined, outputFile = JStr ''out.xlsx'',
           sessionId = JUndefined, error = JUndefined\<rparr> \<and>
   submit_result (axios_post (HttpResponse 500 (JObj [(''error'', JStr [])]))) ready =
     Some \<lparr>success = False, message = JStr ''Processing failed'', outputFile = JUndefined,
           sessionId = JUndefined, error = JStr ''An error occurred during processing''\<rparr>"
  by (simp add: submit_result_enabled [OF ready_enabled] axios_post_def handleSubmit_finish_def
      try_block_def errorMessage_of_def getPropOpt_def generic_error_def
      onProcessingComplete_def Let_def)

text \<open>
  Claim C2, amended. For a submittable selection: when the request is rejected (a response
  with a status outside 200 to 299, no response at all, or any other rejection) or when a
  \<open>2xx\<close> body is \<open>null\<close> or undefined, the result has \<open>success\<close> false, the message
  \<open>Processing failed\<close>, no \<open>outputFile\<close> and no \<open>sessionId\<close>, and as \<open>error\<close> the
  \<open>error\<close> field of the response body when a response arrived and that field is truthy,
  the generic text otherwise. Every \<open>2xx\<close> response with any other body delivers
  \<open>success\<close> true, with or without a \<open>message\<close> field; the body is not validated.
\<close>

theorem failure_result_amended:
  assumes "\<not> submitDisabled st"
  shows "(\<not> (200 \<le> code \<and> code < 300) \<longrightarrow>
            submit_result (axios_post (HttpResponse code body)) st =
              Some \<lparr>success = False, message = JStr ''Processing failed'',
                    outputFile = JUndefined, sessionId = JUndefined,
                    error = (if truthy (getPropOpt body ''error'')
                             then getPropOpt body ''error'' else generic_error)\<rparr>) \<and>
         submit_result (axios_post NetworkFailure) st =
           Some \<lparr>success = False, message = JStr ''Processing failed'',
                 outputFile = JUndefined, sessionId = JUndefined, error = generic_error\<rparr> \<and>
         submit_result RejectedOther st =
           Some \<lparr>success = False, message = JStr ''Processing failed'',
                 outputFile = JUndefined, sessionId = JUndefined, error = generic_error\<rparr> \<and>
         (200 \<le> code \<and> code < 300 \<and> (body = JNull \<or> body = JUndefined) \<longrightarrow>
            submit_result (axios_post (HttpResponse code body)) st =
              Some \<lparr>success = False, message = JStr ''Processing failed'',
                    outputFile = JUndefined, sessionId = JUndefined, error = generic_error\<rparr>) \<and>
         (200 \<le> code \<and> code < 300 \<and> body \<noteq> JNull \<and> body \<noteq> JUndefined \<longrightarrow>
            (\<exists>r. submit_result (axios_post (HttpResponse code body)) st = Some r \<and> success r))"
proof -
  note defs = submit_result_enabled [OF assms] axios_post_def handleSubmit_finish_def
    try_block_def errorMessage_of_def onProcessingComplete_def Let_def
  have rejected: "\<not> (200 \<le> code \<and> code < 300) \<longrightarrow>
            submit_result (axios_post (HttpResponse code body)) st =
              Some \<lparr>success = False, message = JStr ''Processing failed'',
                    outputFile = JUndefined, sessionId = JUndefined,
                    error = (if truthy (getPropOpt body ''error'')
                             then getPropOpt body ''error'' else generic_error)\<rparr>"
    by (simp add: defs)
  have network: "submit_result (axios_post NetworkFailure) st =
           Some \<lparr>success = False, message = JStr ''Processing failed'',
                 outputFile = JUndefined, sessionId = JUndefined, error = generic_error\<rparr>"
    by (simp add: defs)
  have other: "submit_result RejectedOther st =
           Some \<lparr>success = False, message = JStr ''Processing failed'',
                 outputFile = JUndefined, sessionId = JUndefined, error = generic_error\<rparr>"
    by (simp add: defs)
  have nullish: "200 \<le> code \<and> code < 300 \<and> (body = JNull \<or> body = JUndefined) \<longrightarrow>
            submit_result (axios_post (HttpResponse code body)) st =
              Some \<lparr>success = False, message = JStr ''Processing failed'',
                    outputFile = JUndefined, sessionId = JUndefined, error = generic_error\<rparr>"
    by (auto simp add: defs)
  have accepted: "200 \<le> code \<and> code < 300 \<and> body \<noteq> JNull \<and> body \<noteq> JUndefined \<longrightarrow>
            (\<exists>r. submit_result (axios_post (HttpResponse code body)) st = Some r \<and> success r)"
    by (cases body) (simp_all add: defs)
  from rejected network other nullish accepted show ?thesis by blast
qed

theorem failure_result_amended_witness:
  "\<not> submitDisabled ready \<and>
   submit_result (axios_post (HttpResponse 500 (JObj [(''error'', JStr ''Malformed PDF'')]))) ready =
     Some \<lparr>success = False, message = JStr ''Processing failed'', outputFile = JUndefined,
           sessionId = JUndefined, error = JStr ''Malformed PDF''\<rparr> \<and>
   submit_result (axios_post (HttpResponse 502 (JStr ''Bad Gateway''))) ready =
     Some \<lparr>success = False, message = JStr ''Processing failed'', outputFile = JUndefined,
           sessionId = JUndefined, error = JStr ''An error occurred during processing''\<rparr> \<and>
   submit_result (axios_post (HttpResponse 200 JNull)) ready =
     Some \<lparr>success = False, message = JStr ''Processing failed'', outputFile = JUndefined,
           sessionId = JUndefined, error = JStr ''An error occurred during processing''\<rparr> \<and>
   (\<exists>r. submit_result (axios_post (HttpResponse 200 (JObj []))) ready = Some r \<and> success r)"
  using ready_enabled
    failure_result_amended [OF ready_enabled, of 500 "JObj [(''error'', JStr ''Malformed PDF'')]"]
    failure_result_amended [OF ready_enabled, of 502 "JStr ''Bad Gateway''"]
    failure_result_amended [OF ready_enabled, of 200 JNull]
    failure_result_amended [OF ready_enabled, of 200 "JObj []"]
  by (simp add: getPropOpt_def generic_error_def)

section \<open>A submit while one is in flight\<close>




section \<open>Upload progress\<close>

text \<open>
  Claim C1, as stated: every progress event emits the rounded percentage clamped to
  \<open>[0, 100]\<close>, and \<open>0\<close> when the total is unknown or zero. The handler divides by
  \<open>100\<close> when the total is missing or zero and applies no clamp: an event with
  \<open>5000\<close> bytes sent and no total emits \<open>5000\<close> where the rule gives \<open>0\<close>, and an
  event with \<open>300\<close> of \<open>100\<close> bytes emits \<open>300\<close> where the rule gives \<open>100\<close>.
\<close>

theorem progress_counterexample:
  "uploadProgress (onUploadProgress \<lparr>loaded = 5000, total = None\<rparr> initial) = 5000 \<and>
   spec_percentComplete \<lparr>loaded = 5000, total = None\<rparr> = 0 \<and>
   uploadProgress (onUploadProgress \<lparr>loaded = 300, total = Some 100\<rparr> initial) = 300 \<and>
   spec_percentComplete \<lparr>loaded = 300, total = Some 100\<rparr> = 100"
  by (simp add: onUploadProgress_def percentCompleted_fallback percentCompleted_known
      spec_percentComplete_def)

text \<open>
  Claim C1, amended. Every progress event stores \<open>percentCompleted\<close> of the event. For
  byte counts with \<open>100 * loaded < 2^52\<close> (so that the double arithmetic is that of exact
  numbers) and \<open>total < 2^53\<close>: when the total is known and not zero the value is
  \<open>round (loaded * 100 / total)\<close>, in integers \<open>(200 * loaded + total) div (2 * total)\<close>;
  no clamp is applied, and the value lies in \<open>[0, 100]\<close> and agrees with the clamped rule
  whenever \<open>loaded \<le> total\<close>. When the total is unknown or zero the divisor is \<open>100\<close>
  and the value is \<open>loaded\<close> itself. The completion of the request does not touch the
  stored progress, so no final \<open>100\<close> is emitted.
\<close>

theorem progress_amended:
  "uploadProgress (onUploadProgress \<lparr>loaded = l, total = tot\<rparr> st) =
     percentCompleted \<lparr>loaded = l, total = tot\<rparr> \<and>
   (100 * l < 2 ^ 52 \<and> tot = Some t \<and> t \<noteq> 0 \<and> t < 2 ^ 53 \<longrightarrow>
      percentCompleted \<lparr>loaded = l, total = tot\<rparr> = round (rat_of_nat l * 100 / rat_of_nat t) \<and>
      percentCompleted \<lparr>loaded = l, total = tot\<rparr> = (200 * int l + int t) div (2 * int t)) \<and>
   (100 * l < 2 ^ 52 \<and> tot = Some t \<and> t \<noteq> 0 \<and> t < 2 ^ 53 \<and> l \<le> t \<longrightarrow>
      0 \<le> percentCompleted \<lparr>loaded = l, total = tot\<rparr> \<and>
      percentCompleted \<lparr>loaded = l, total = tot\<rparr> \<le> 100 \<and>
      percentCompleted \<lparr>loaded = l, total = tot\<rparr> =
        spec_percentComplete \<lparr>loaded = l, total = tot\<rparr>) \<and>
   (100 * l < 2 ^ 52 \<and> (tot = None \<or> tot = Some 0) \<longrightarrow>
      percentCompleted \<lparr>loaded = l, total = tot\<rparr> = int l) \<and>
   uploadProgress (handleSubmit_finish s st) = uploadProgress st"
proof -
  have fin: "uploadProgress (handleSubmit_finish s st) = uploadProgress st"
    by (simp add: handleSubmit_finish_def onProcessingComplete_def Let_def split: sum.splits)
  have quot: "100 * l < 2 ^ 52 \<and> tot = Some t \<and> t \<noteq> 0 \<and> t < 2 ^ 53 \<longrightarrow>
      percentCompleted \<lparr>loaded = l, total = tot\<rparr> = (200 * int l + int t) div (2 * int t)"
    using round_quotient [of t "l * 100"] by (auto simp add: percentCompleted_known)
  have rng: "100 * l < 2 ^ 52 \<and> tot = Some t \<and> t \<noteq> 0 \<and> t < 2 ^ 53 \<and> l \<le> t \<longrightarrow>
      0 \<le> percentCompleted \<lparr>loaded = l, total = tot\<rparr> \<and>
      percentCompleted \<lparr>loaded = l, total = tot\<rparr> \<le> 100 \<and>
      percentCompleted \<lparr>loaded = l, total = tot\<rparr> =
        spec_percentComplete \<lparr>loaded = l, total = tot\<rparr>"
    using round_percent_range [of t l]
    by (auto simp add: percentCompleted_known spec_percentComplete_def)
  have known: "100 * l < 2 ^ 52 \<and> tot = Some t \<and> t \<noteq> 0 \<and> t < 2 ^ 53 \<longrightarrow>
      percentCompleted \<lparr>loaded = l, total = tot\<rparr> = round (rat_of_nat l * 100 / rat_of_nat t)"
    by (auto simp add: percentCompleted_known)
  have unknown: "100 * l < 2 ^ 52 \<and> (tot = None \<or> tot = Some 0) \<longrightarrow>
      percentCompleted \<lparr>loaded = l, total = tot\<rparr> = int l"
    by (auto simp add: percentCompleted_fallback)
  have emit: "uploadProgress (onUploadProgress \<lparr>loaded = l, total = tot\<rparr> st) =
     percentCompleted \<lparr>loaded = l, total = tot\<rparr>"
    by (simp add: onUploadProgress_def)
  from emit known quot rng unknown fin show ?thesis by blast
qed

theorem progress_amended_witness:
  "uploadProgress (onUploadProgress \<lparr>loaded = 1, total = Some 8\<rparr> initial) = 13 \<and>
   spec_percentComplete \<lparr>loaded = 1, total = Some 8\<rparr> = 13 \<and>
   uploadProgress (onUploadProgress \<lparr>loaded = 8, total = Some 8\<rparr> initial) = 100 \<and>
   uploadProgress (onUploadProgress \<lparr>loaded = 42, total = None\<rparr> initial) = 42 \<and>
   uploadProgress (onUploadProgress \<lparr>loaded = 42, total = Some 0\<rparr> initial) = 42"
  using progress_amended [of 1 "Some 8" initial 8 RejectedOther]
    progress_amended [of 8 "Some 8" initial 8 RejectedOther]
    progress_amended [of 42 None initial 0 RejectedOther]
    progress_amended [of 42 "Some 0" initial 0 RejectedOther]
  by simp

end
